theory Spec2Isabelle
  imports Main
begin

section \<open>Strings and the Python string operations the script uses\<close>

text \<open>
  A Python \<open>str\<close> is a sequence of Unicode code points, so a string is a list of
  code points. \<open>ascii\<close> writes an ASCII literal of the script as such a list.
\<close>

type_synonym ustr = "nat list"

definition ascii :: "string \<Rightarrow> ustr" where
  "ascii s = map of_char s"

text \<open>
  \<open>str.strip()\<close> without argument removes the characters for which
  \<open>str.isspace\<close> holds from both ends. These are the code points CPython
  classifies as whitespace.
\<close>

definition py_isspace :: "nat \<Rightarrow> bool" where
  "py_isspace c \<longleftrightarrow>
     c \<in> set [9, 10, 11, 12, 13, 28, 29, 30, 31, 32, 133, 160, 5760,
              8192, 8193, 8194, 8195, 8196, 8197, 8198, 8199, 8200, 8201, 8202,
              8232, 8233, 8239, 8287, 12288]"

definition py_lstrip :: "ustr \<Rightarrow> ustr" where
  "py_lstrip s = dropWhile py_isspace s"

definition py_rstrip :: "ustr \<Rightarrow> ustr" where
  "py_rstrip s = rev (dropWhile py_isspace (rev s))"

definition py_strip :: "ustr \<Rightarrow> ustr" where
  "py_strip s = py_rstrip (py_lstrip s)"

definition startswith :: "ustr \<Rightarrow> ustr \<Rightarrow> bool" where
  "startswith s p \<longleftrightarrow> take (length p) s = p"

definition endswith :: "ustr \<Rightarrow> ustr \<Rightarrow> bool" where
  "endswith s p \<longleftrightarrow> length p \<le> length s \<and> drop (length s - length p) s = p"

section \<open>Module constants\<close>

definition SECTION_MARKER_PREFIX :: ustr where
  "SECTION_MARKER_PREFIX = ascii ''//''"

definition LANGUAGE_KEYS :: "ustr set" where
  "LANGUAGE_KEYS = {ascii ''CURRENT_LANGUAGE_NAME'', ascii ''CURRENT_LANGUAGE_SHIPPABLE''}"

text \<open>The byte order mark U+FEFF that \<open>normalize_header\<close> strips.\<close>

definition BOM :: nat where
  "BOM = 65279"

definition dot_csv :: ustr where
  "dot_csv = ascii ''.csv''"

definition KEY :: ustr where
  "KEY = ascii ''KEY''"

definition additions_csv :: ustr where
  "additions_csv = ascii ''additions.csv''"

section \<open>CSV files\<close>

text \<open>
  The script reads every file through \<open>csv.reader\<close> (directly or inside
  \<open>csv.DictReader\<close>) and writes through \<open>csv.writer\<close>. A file is modelled by
  the list of rows the reader yields for it, after the \<open>utf-8-sig\<close> decoding; a
  blank line is the empty row. The writer is given such a list of rows.
\<close>

type_synonym csv_row = "ustr list"
type_synonym csv_file = "csv_row list"

text \<open>
  \<open>normalize_header(field)\<close> is \<open>(field or "")\<close> without its leading
  byte order marks (\<open>lstrip\<close> of U+FEFF); the field is \<open>None\<close> for the rest key of
  a \<open>DictReader\<close> row.
\<close>

definition normalize_header :: "ustr option \<Rightarrow> ustr" where
  "normalize_header field =
     dropWhile (\<lambda>c. c = BOM) (case field of None \<Rightarrow> [] | Some s \<Rightarrow> s)"

section \<open>The reference parser\<close>

text \<open>
  The ways a run ends without writing: the four \<open>SystemExit\<close>s of the script, and an
  exception that nothing catches.
\<close>

datatype py_error = IndexError | AttributeError

datatype abort =
    InputDirMissing | ReferenceMissing | ReferenceEmpty | NoSectionOrder
  | Uncaught py_error

text \<open>
  The loop over the rows after the header, with the list \<open>order\<close> it appends to.
\<close>

fun scan_reference :: "csv_file \<Rightarrow> ustr list \<Rightarrow> ustr list" where
  "scan_reference [] order = order"
| "scan_reference (row # rest) order =
     (if row = [] then scan_reference rest order
      else
        let first = py_strip (hd row) in
        if startswith first SECTION_MARKER_PREFIX \<and> endswith first dot_csv
        then scan_reference rest
               (order @ [py_strip (drop (length SECTION_MARKER_PREFIX) first)])
        else scan_reference rest order)"

definition parse_reference_combined :: "csv_file \<Rightarrow> abort + (ustr list \<times> ustr list)" where
  "parse_reference_combined reference =
     (case reference of
        [] \<Rightarrow> Inl ReferenceEmpty
      | raw_header # rest \<Rightarrow>
          let header = map (\<lambda>col. normalize_header (Some col)) raw_header;
              order = scan_reference rest []
          in if order = [] then Inl NoSectionOrder else Inr (header, order))"

subsection \<open>Section markers as the specification words them\<close>

text \<open>
  A row is a section marker iff it has a first cell and that cell, trimmed of
  surrounding whitespace, starts with \<open>//\<close> and ends with \<open>.csv\<close>; its file name is
  the trimmed cell without the prefix, trimmed again.
\<close>

definition is_section_marker :: "csv_row \<Rightarrow> bool" where
  "is_section_marker row \<longleftrightarrow>
     (case row of [] \<Rightarrow> False
      | c # _ \<Rightarrow> startswith (py_strip c) (ascii ''//'') \<and> endswith (py_strip c) (ascii ''.csv''))"

definition marker_file_name :: "csv_row \<Rightarrow> ustr" where
  "marker_file_name row = py_strip (drop 2 (py_strip (hd row)))"

definition marker_names :: "csv_file \<Rightarrow> ustr list" where
  "marker_names rows = map marker_file_name (filter is_section_marker rows)"

section \<open>Reading a source file\<close>

text \<open>
  A Python \<open>dict\<close> is an association list with distinct keys in insertion order:
  assigning to a present key replaces its value in place, assigning to an absent key
  appends the pair. \<open>d.get(k)\<close> is \<open>map_of d k\<close>.
\<close>

fun dict_set :: "('k \<times> 'v) list \<Rightarrow> 'k \<Rightarrow> 'v \<Rightarrow> ('k \<times> 'v) list" where
  "dict_set [] k v = [(k, v)]"
| "dict_set ((k', v') # d) k v =
     (if k' = k then (k', v) # d else (k', v') # dict_set d k v)"

text \<open>
  The values of a source row: a string, or the list of surplus cells that
  \<open>csv.DictReader\<close> stores under its rest key.
\<close>

datatype cell = Str ustr | Lst "ustr list"

type_synonym srow = "(ustr \<times> cell) list"

text \<open>
  One row of \<open>csv.DictReader\<close> (rest key and rest value \<open>None\<close>, the defaults):
  \<open>dict(zip(fieldnames, row))\<close>, then the surplus cells under the key \<open>None\<close> when the
  row is longer than the field names, or \<open>None\<close> for each field name without a cell
  when it is shorter.
\<close>

definition dict_reader_row :: "ustr list \<Rightarrow> csv_row \<Rightarrow> (ustr option \<times> cell option) list" where
  "dict_reader_row fieldnames row =
     (let d = foldl (\<lambda>d (k, v). dict_set d (Some k) (Some (Str v))) [] (zip fieldnames row);
          lf = length fieldnames;
          lr = length row
      in if lf < lr then dict_set d None (Some (Lst (drop lf row)))
         else if lf > lr then foldl (\<lambda>d k. dict_set d (Some k) None) d (drop lr fieldnames)
         else d)"

text \<open>
  The inner loop of \<open>read_csv_rows\<close>:
  \<open>fixed[normalize_header(key)] = value if value is not None else ""\<close>.
\<close>

definition fix_row :: "(ustr option \<times> cell option) list \<Rightarrow> srow" where
  "fix_row d =
     foldl (\<lambda>fixed (key, v).
              dict_set fixed (normalize_header key) (case v of None \<Rightarrow> Str [] | Some x \<Rightarrow> x))
       [] d"

text \<open>
  \<open>reader.fieldnames\<close> is the first row of the file (\<open>None\<close> for a file without rows);
  the reader then skips every empty row.
\<close>

definition read_csv_rows :: "csv_file \<Rightarrow> ustr list \<times> srow list" where
  "read_csv_rows file =
     (case file of
        [] \<Rightarrow> ([], [])
      | fieldnames # rest \<Rightarrow>
          if fieldnames = [] then ([], [])
          else (map (\<lambda>name. normalize_header (Some name)) fieldnames,
                map (\<lambda>row. fix_row (dict_reader_row fieldnames row))
                  (filter (\<lambda>row. row \<noteq> []) rest)))"

section \<open>The row assembler\<close>

definition to_output_row :: "srow \<Rightarrow> ustr list \<Rightarrow> cell list" where
  "to_output_row source_row output_columns =
     map (\<lambda>col. case map_of source_row col of None \<Rightarrow> Str [] | Some v \<Rightarrow> v) output_columns"

text \<open>
  \<open>(row.get("KEY") or "").strip()\<close>: a missing key, an empty string and an empty list
  are falsy and give the empty string; a non-empty list has no \<open>strip\<close>.
\<close>

definition row_key :: "srow \<Rightarrow> py_error + ustr" where
  "row_key row =
     (case map_of row KEY of
        None \<Rightarrow> Inr (py_strip [])
      | Some (Str s) \<Rightarrow> Inr (py_strip s)
      | Some (Lst l) \<Rightarrow> if l = [] then Inr (py_strip []) else Inl AttributeError)"

text \<open>\<open>[""] * len(output_columns)\<close>\<close>

definition blank_row :: "ustr list \<Rightarrow> cell list" where
  "blank_row output_columns = replicate (length output_columns) (Str [])"

text \<open>
  The marker row: a blank row whose cell 0 is then assigned; the assignment raises
  \<open>IndexError\<close> on an empty list.
\<close>

definition marker_row :: "ustr list \<Rightarrow> ustr \<Rightarrow> py_error + cell list" where
  "marker_row output_columns file_name =
     (let marker = blank_row output_columns
      in if 0 < length marker then Inr (marker[0 := Str (ascii ''// '' @ file_name)])
         else Inl IndexError)"

text \<open>
  The two warnings, as code points. The first says that no \<open>CURRENT_LANGUAGE_*\<close> row
  was found in additions.csv; the second is the prefix "missing file, empty section
  kept: " to which the file name is appended.
\<close>

definition no_language_warning :: ustr where
  "no_language_warning =
     [26410, 22312, 32, 97, 100, 100, 105, 116, 105, 111, 110, 115, 46, 99, 115, 118, 32,
      20013, 25214, 21040, 32, 67, 85, 82, 82, 69, 78, 84, 95, 76, 65, 78, 71, 85, 65, 71,
      69, 95, 42, 32, 34892, 65292, 99, 111, 109, 98, 105, 110, 101, 100, 32, 39030, 37096,
      35821, 35328, 34892, 23558, 32570, 22833]"

definition missing_warning :: "ustr \<Rightarrow> ustr" where
  "missing_warning file_name =
     [32570, 23569, 25991, 20214, 65292, 24050, 20445, 30041, 31354, 20998, 27573, 58, 32]
     @ file_name"

text \<open>
  The source directory as the script sees it: \<open>text_dir name\<close> is \<open>None\<close> when
  \<open>os.path.isfile(os.path.join(text_dir, name))\<close> is false, and the rows of that file
  otherwise.
\<close>

type_synonym directory = "ustr \<Rightarrow> csv_file option"

text \<open>
  The first loop, over the rows of additions.csv, with \<open>rows_out\<close> and
  \<open>language_rows_added\<close> as state.
\<close>

fun language_loop ::
  "ustr list \<Rightarrow> srow list \<Rightarrow> cell list list \<times> nat \<Rightarrow> py_error + cell list list \<times> nat" where
  "language_loop output_columns [] st = Inr st"
| "language_loop output_columns (row # rest) (rows_out, language_rows_added) =
     (case row_key row of
        Inl e \<Rightarrow> Inl e
      | Inr key \<Rightarrow>
          if key \<in> LANGUAGE_KEYS
          then language_loop output_columns rest
                 (rows_out @ [to_output_row row output_columns], language_rows_added + 1)
          else language_loop output_columns rest (rows_out, language_rows_added))"

text \<open>The loop over the rows of one section file, with \<open>rows_out\<close> as state.\<close>

fun source_rows_loop ::
  "ustr \<Rightarrow> ustr list \<Rightarrow> srow list \<Rightarrow> cell list list \<Rightarrow> py_error + cell list list" where
  "source_rows_loop file_name output_columns [] rows_out = Inr rows_out"
| "source_rows_loop file_name output_columns (row # rest) rows_out =
     (case row_key row of
        Inl e \<Rightarrow> Inl e
      | Inr key \<Rightarrow>
          if file_name = additions_csv \<and> key \<in> LANGUAGE_KEYS
          then source_rows_loop file_name output_columns rest rows_out
          else source_rows_loop file_name output_columns rest
                 (rows_out @ [to_output_row row output_columns]))"

text \<open>
  The loop over \<open>enumerate(section_order)\<close>: \<open>n\<close> is \<open>len(section_order)\<close>,
  \<open>index\<close> the index of the head of the remaining names, and the state is
  \<open>(rows_out, warnings)\<close>.
\<close>

fun sections_loop ::
  "directory \<Rightarrow> ustr list \<Rightarrow> nat \<Rightarrow> nat \<Rightarrow> ustr list \<Rightarrow> cell list list \<times> ustr list
     \<Rightarrow> py_error + cell list list \<times> ustr list" where
  "sections_loop text_dir output_columns n index [] st = Inr st"
| "sections_loop text_dir output_columns n index (file_name # rest) (rows_out, warnings) =
     (case marker_row output_columns file_name of
        Inl e \<Rightarrow> Inl e
      | Inr marker \<Rightarrow>
          (case (case text_dir file_name of
                   None \<Rightarrow> Inr (rows_out @ [marker], warnings @ [missing_warning file_name])
                 | Some file \<Rightarrow>
                     (case source_rows_loop file_name output_columns (snd (read_csv_rows file))
                             (rows_out @ [marker]) of
                        Inl e \<Rightarrow> Inl e
                      | Inr rows_out' \<Rightarrow> Inr (rows_out', warnings))) of
             Inl e \<Rightarrow> Inl e
           | Inr (rows_out', warnings') \<Rightarrow>
               sections_loop text_dir output_columns n (index + 1) rest
                 (if int index < int n - 1 then rows_out' @ [blank_row output_columns]
                  else rows_out',
                  warnings')))"

definition build_combined_rows ::
  "directory \<Rightarrow> ustr list \<Rightarrow> ustr list \<Rightarrow> py_error + cell list list \<times> ustr list" where
  "build_combined_rows text_dir output_columns section_order =
     (case (case text_dir additions_csv of
              None \<Rightarrow> Inr ([], 0)
            | Some file \<Rightarrow> language_loop output_columns (snd (read_csv_rows file)) ([], 0)) of
        Inl e \<Rightarrow> Inl e
      | Inr (rows_out, language_rows_added) \<Rightarrow>
          sections_loop text_dir output_columns (length section_order) 0 section_order
            (rows_out @ [blank_row output_columns],
             if language_rows_added = 0 then [no_language_warning] else []))"

section \<open>The writer and the whole run\<close>

text \<open>
  \<open>csv.writer\<close> writes a cell that is a string as it is, and any other cell as its
  \<open>str()\<close>. For a list of strings that is \<open>[\<close>, the \<open>repr()\<close> of the elements
  separated by a comma and a space, and \<open>]\<close>.

  \<open>repr()\<close> of a string puts it in single quotes, or in double quotes when it holds a
  single quote and no double quote; it escapes the quote and the backslash with a
  backslash, writes tab, line feed and carriage return as \<open>\t\<close>, \<open>\n\<close>, \<open>\r\<close>, the
  other ASCII control characters as \<open>\xhh\<close>, and a code point from 128 on that is not
  printable as \<open>\xhh\<close>, \<open>\uhhhh\<close> or \<open>\Uhhhhhhhh\<close>. Which code points from 128 on
  are printable is a table of the Unicode database: the parameter \<open>isprintable\<close>.
\<close>

definition hex_digit :: "nat \<Rightarrow> nat" where
  "hex_digit d = (if d < 10 then 48 + d else 87 + d)"

text \<open>\<open>hex w n\<close>: the number \<open>n\<close> in \<open>w\<close> lower-case hexadecimal digits.\<close>

fun hex :: "nat \<Rightarrow> nat \<Rightarrow> ustr" where
  "hex 0 n = []"
| "hex (Suc w) n = hex w (n div 16) @ [hex_digit (n mod 16)]"

definition repr_char :: "(nat \<Rightarrow> bool) \<Rightarrow> nat \<Rightarrow> nat \<Rightarrow> ustr" where
  "repr_char isprintable quote c =
     (if c = quote \<or> c = 92 then [92, c]
      else if c = 9 then [92, 116]
      else if c = 10 then [92, 110]
      else if c = 13 then [92, 114]
      else if c < 32 \<or> c = 127 then [92, 120] @ hex 2 c
      else if c < 127 then [c]
      else if isprintable c then [c]
      else if c \<le> 255 then [92, 120] @ hex 2 c
      else if c \<le> 65535 then [92, 117] @ hex 4 c
      else [92, 85] @ hex 8 c)"

definition py_repr :: "(nat \<Rightarrow> bool) \<Rightarrow> ustr \<Rightarrow> ustr" where
  "py_repr isprintable s =
     (let quote = (if 39 \<in> set s \<and> 34 \<notin> set s then 34 else 39)
      in [quote] @ concat (map (repr_char isprintable quote) s) @ [quote])"

fun join_comma :: "ustr list \<Rightarrow> ustr" where
  "join_comma [] = []"
| "join_comma [x] = x"
| "join_comma (x # xs) = x @ [44, 32] @ join_comma xs"

definition str_of_list :: "(nat \<Rightarrow> bool) \<Rightarrow> ustr list \<Rightarrow> ustr" where
  "str_of_list isprintable l = [91] @ join_comma (map (py_repr isprintable) l) @ [93]"

definition written_cell :: "(nat \<Rightarrow> bool) \<Rightarrow> cell \<Rightarrow> ustr" where
  "written_cell isprintable c =
     (case c of Str s \<Rightarrow> s | Lst l \<Rightarrow> str_of_list isprintable l)"

text \<open>
  \<open>write_combined\<close> gives the writer the header and then the rows; the result is the
  written file, as the rows of strings the writer writes. Where the file lands (the
  \<open>--output\<close> argument, the directories created for it) is left out.
\<close>

definition write_combined :: "(nat \<Rightarrow> bool) \<Rightarrow> ustr list \<Rightarrow> cell list list \<Rightarrow> csv_file" where
  "write_combined isprintable output_columns rows =
     output_columns # map (map (written_cell isprintable)) rows"

text \<open>
  What a run of \<open>main\<close> depends on: whether the text directory exists, the reference
  file (\<open>None\<close> when the reference path is not a file), and the files of the text
  directory; \<open>isprintable\<close> is the table the writer uses. A run that does not abort
  gives the written file and the printed numbers and warnings.
\<close>

record world =
  text_dir_isdir :: bool
  reference :: "csv_file option"
  text_dir :: directory

record report =
  written :: csv_file
  sections :: nat
  rows_written :: nat
  warnings :: "ustr list"

definition main :: "(nat \<Rightarrow> bool) \<Rightarrow> world \<Rightarrow> abort + report" where
  "main isprintable w =
     (if \<not> text_dir_isdir w then Inl InputDirMissing
      else case reference w of
        None \<Rightarrow> Inl ReferenceMissing
      | Some ref \<Rightarrow>
          (case parse_reference_combined ref of
             Inl e \<Rightarrow> Inl e
           | Inr (output_columns, section_order) \<Rightarrow>
               (case build_combined_rows (text_dir w) output_columns section_order of
                  Inl e \<Rightarrow> Inl (Uncaught e)
                | Inr (rows, warns) \<Rightarrow>
                    Inr \<lparr>written = write_combined isprintable output_columns rows,
                         sections = length section_order,
                         rows_written = length rows,
                         warnings = warns\<rparr>)))"

section \<open>The layout of the combined file, as the specification words it\<close>

text \<open>
  A language row: its \<open>KEY\<close>, trimmed of surrounding whitespace, is one of the two
  language keys.
\<close>

definition is_language_row :: "srow \<Rightarrow> bool" where
  "is_language_row row \<longleftrightarrow> (case row_key row of Inl _ \<Rightarrow> False | Inr key \<Rightarrow> key \<in> LANGUAGE_KEYS)"

text \<open>The rows of a source file as \<open>read_csv_rows\<close> returns them.\<close>

definition source_rows :: "csv_file \<Rightarrow> srow list" where
  "source_rows file = snd (read_csv_rows file)"

text \<open>The language rows of additions.csv, projected, in file order.\<close>

definition language_rows :: "directory \<Rightarrow> ustr list \<Rightarrow> cell list list" where
  "language_rows dir cols =
     (case dir additions_csv of
        None \<Rightarrow> []
      | Some file \<Rightarrow> map (\<lambda>r. to_output_row r cols) (filter is_language_row (source_rows file)))"

text \<open>
  The data rows of a section: none for a missing file; otherwise every row of the
  file, projected, except the language rows when the section is additions.csv.
\<close>

definition section_data :: "directory \<Rightarrow> ustr list \<Rightarrow> ustr \<Rightarrow> cell list list" where
  "section_data dir cols name =
     (case dir name of
        None \<Rightarrow> []
      | Some file \<Rightarrow>
          map (\<lambda>r. to_output_row r cols)
            (filter (\<lambda>r. \<not> (name = additions_csv \<and> is_language_row r)) (source_rows file)))"

text \<open>A row of empty cells, and the marker row of a section.\<close>

definition empty_cells :: "nat \<Rightarrow> cell list" where
  "empty_cells n = replicate n (Str [])"

definition section_marker :: "ustr list \<Rightarrow> ustr \<Rightarrow> cell list" where
  "section_marker cols name = Str (ascii ''// '' @ name) # empty_cells (length cols - 1)"

text \<open>
  Marker, data rows and, after every section but the last, one blank separator.
\<close>

fun section_blocks :: "directory \<Rightarrow> ustr list \<Rightarrow> ustr list \<Rightarrow> cell list list" where
  "section_blocks dir cols [] = []"
| "section_blocks dir cols [name] = section_marker cols name # section_data dir cols name"
| "section_blocks dir cols (name # rest) =
     section_marker cols name # section_data dir cols name
       @ [empty_cells (length cols)] @ section_blocks dir cols rest"

definition combined_layout :: "directory \<Rightarrow> ustr list \<Rightarrow> ustr list \<Rightarrow> cell list list" where
  "combined_layout dir cols order =
     language_rows dir cols @ [empty_cells (length cols)] @ section_blocks dir cols order"

text \<open>Sections that are each followed by a separator: those before another section.\<close>

definition separated_blocks :: "directory \<Rightarrow> ustr list \<Rightarrow> ustr list \<Rightarrow> cell list list" where
  "separated_blocks dir cols names =
     concat (map (\<lambda>name. section_marker cols name # section_data dir cols name
                            @ [empty_cells (length cols)]) names)"

text \<open>The warnings of a run, in order.\<close>

definition expected_warnings :: "directory \<Rightarrow> ustr list \<Rightarrow> ustr list" where
  "expected_warnings dir order =
     (if (case dir additions_csv of
            None \<Rightarrow> True
          | Some file \<Rightarrow> filter is_language_row (source_rows file) = [])
      then [no_language_warning] else [])
     @ map missing_warning (filter (\<lambda>name. dir name = None) order)"

section \<open>Concrete files\<close>

text \<open>
  The example of the specification: header \<open>KEY,EN,ZH\<close>, sections items.csv and
  additions.csv; additions.csv holds a language row and a normal row, items.csv one
  row. \<open>example_reference\<close> is the combined file with the specified layout.
\<close>

definition example_columns :: "ustr list" where
  "example_columns = [ascii ''KEY'', ascii ''EN'', ascii ''ZH'']"

definition example_order :: "ustr list" where
  "example_order = [ascii ''items.csv'', ascii ''additions.csv'']"

definition example_additions :: csv_file where
  "example_additions =
     [[ascii ''KEY'', ascii ''EN'', ascii ''ZH''],
      [ascii ''CURRENT_LANGUAGE_NAME'', ascii ''English'', [20013, 25991]],
      [ascii ''foo'', ascii ''Foo'', ascii ''fu'']]"

definition example_items :: csv_file where
  "example_items =
     [[ascii ''KEY'', ascii ''EN'', ascii ''ZH''],
      [ascii ''bar'', ascii ''Bar'', ascii ''ba'']]"

definition example_dir :: directory where
  "example_dir name =
     (if name = ascii ''additions.csv'' then Some example_additions
      else if name = ascii ''items.csv'' then Some example_items
      else None)"

definition example_body :: csv_file where
  "example_body =
     [[ascii ''CURRENT_LANGUAGE_NAME'', ascii ''English'', [20013, 25991]],
      [[], [], []],
      [ascii ''// items.csv'', [], []],
      [ascii ''bar'', ascii ''Bar'', ascii ''ba''],
      [[], [], []],
      [ascii ''// additions.csv'', [], []],
      [ascii ''foo'', ascii ''Foo'', ascii ''fu'']]"

definition example_reference :: csv_file where
  "example_reference = example_columns # example_body"

definition example_world :: world where
  "example_world =
     \<lparr>text_dir_isdir = True, reference = Some example_reference, text_dir = example_dir\<rparr>"

text \<open>
  A combined file whose marker row carries a note in its second cell, and its one
  section file.
\<close>

definition noted_reference :: csv_file where
  "noted_reference =
     [[ascii ''KEY'', ascii ''EN''],
      [[], []],
      [ascii ''// a.csv'', ascii ''x''],
      [ascii ''k'', ascii ''v'']]"


text \<open>
  The example directory after a first run has written its output to the default place,
  combined.csv inside the text directory.
\<close>

definition example_world_rerun :: world where
  "example_world_rerun =
     example_world\<lparr>text_dir := (text_dir example_world)(ascii ''combined.csv'' \<mapsto> example_reference)\<rparr>"

text \<open>A section order that names a file the example directory does not have.\<close>

definition example_order_missing :: "ustr list" where
  "example_order_missing = [ascii ''items.csv'', ascii ''skills.csv'', ascii ''additions.csv'']"

text \<open>The body the assembler builds for \<open>example_order_missing\<close>.\<close>

definition example_body_missing :: csv_file where
  "example_body_missing =
     [[ascii ''CURRENT_LANGUAGE_NAME'', ascii ''English'', [20013, 25991]],
      [[], [], []],
      [ascii ''// items.csv'', [], []],
      [ascii ''bar'', ascii ''Bar'', ascii ''ba''],
      [[], [], []],
      [ascii ''// skills.csv'', [], []],
      [[], [], []],
      [ascii ''// additions.csv'', [], []],
      [ascii ''foo'', ascii ''Foo'', ascii ''fu'']]"

text \<open>A reference file whose first line is blank: its header row has no cell.\<close>

definition headerless_reference :: csv_file where
  "headerless_reference = [[], [ascii ''// skills.csv'']]"

definition empty_dir :: directory where
  "empty_dir name = None"

section \<open>Which source row an output row comes from\<close>














section \<open>Splitting a combined file\<close>






section \<open>The canonical combined file\<close>











section \<open>Facts about the reference parser\<close>

lemma length_SECTION_MARKER_PREFIX: "length SECTION_MARKER_PREFIX = 2"
  by (simp add: SECTION_MARKER_PREFIX_def ascii_def)

lemma length_ascii: "length (ascii s) = length s"
  by (simp add: ascii_def)

lemma scan_reference_marker_names:
  "scan_reference rows order = order @ marker_names rows"
proof (induction rows arbitrary: order)
  case Nil
  show ?case by (simp add: marker_names_def)
next
  case (Cons row rows)
  show ?case
  proof (cases row)
    case Nil
    then show ?thesis
      using Cons.IH [of order] by (simp add: marker_names_def is_section_marker_def)
  next
    case (Cons c cs)
    then show ?thesis
      using Cons.IH
      by (simp add: marker_names_def is_section_marker_def marker_file_name_def
          SECTION_MARKER_PREFIX_def dot_csv_def length_ascii Let_def numeral_2_eq_2)
  qed
qed

lemma parse_reference_combined_Cons:
  "parse_reference_combined (raw_header # rest) =
     (if marker_names rest = [] then Inl NoSectionOrder
      else Inr (map (\<lambda>col. normalize_header (Some col)) raw_header, marker_names rest))"
  by (simp add: parse_reference_combined_def scan_reference_marker_names Let_def)

section \<open>Facts about reading a source file\<close>

lemma set_dict_set: "set (dict_set d k v) \<subseteq> insert (k, v) (set d)"
  by (induction d k v rule: dict_set.induct) auto

lemma foldl_zip_no_Lst:
  "(k, Some (Lst l)) \<in> set (foldl (\<lambda>d (k, v). dict_set d (Some k) (Some (Str v))) acc xs)
   \<Longrightarrow> (k, Some (Lst l)) \<in> set acc"
proof (induction xs arbitrary: acc)
  case Nil
  then show ?case by simp
next
  case (Cons x xs)
  obtain a b where x: "x = (a, b)" by (cases x)
  from Cons.prems have "(k, Some (Lst l)) \<in> set (dict_set acc (Some a) (Some (Str b)))"
    using Cons.IH by (simp add: x)
  then show ?case using set_dict_set [of acc "Some a" "Some (Str b)"] by auto
qed

lemma foldl_restval_no_Lst:
  "(k, Some (Lst l)) \<in> set (foldl (\<lambda>d k. dict_set d (Some k) None) acc xs)
   \<Longrightarrow> (k, Some (Lst l)) \<in> set acc"
proof (induction xs arbitrary: acc)
  case Nil
  then show ?case by simp
next
  case (Cons x xs)
  from Cons.prems have "(k, Some (Lst l)) \<in> set (dict_set acc (Some x) None)"
    using Cons.IH by simp
  then show ?case using set_dict_set [of acc "Some x" None] by auto
qed

lemma dict_reader_row_Lst:
  assumes "(k, Some (Lst l)) \<in> set (dict_reader_row fieldnames row)"
  shows "k = None"
proof -
  let ?d = "foldl (\<lambda>d (k, v). dict_set d (Some k) (Some (Str v))) [] (zip fieldnames row)"
  have d: "(k, Some (Lst l)) \<notin> set ?d"
    using foldl_zip_no_Lst [of k l "[]"] by auto
  show ?thesis
  proof (cases "length fieldnames < length row")
    case True
    with assms have "(k, Some (Lst l)) \<in> set (dict_set ?d None (Some (Lst (drop (length fieldnames) row))))"
      by (simp add: dict_reader_row_def Let_def)
    with d show ?thesis
      using set_dict_set [of ?d None "Some (Lst (drop (length fieldnames) row))"] by auto
  next
    case False
    with assms have "(k, Some (Lst l)) \<in> set ?d"
      using foldl_restval_no_Lst [of k l ?d]
      by (auto simp: dict_reader_row_def Let_def split: if_splits)
    with d show ?thesis by simp
  qed
qed

lemma foldl_fix_Lst:
  assumes "\<And>k l. (k, Some (Lst l)) \<in> set d \<Longrightarrow> k = None"
    and "\<And>k l. (k, Lst l) \<in> set acc \<Longrightarrow> k = []"
    and "(k, Lst l) \<in> set (foldl (\<lambda>fixed (key, v).
              dict_set fixed (normalize_header key) (case v of None \<Rightarrow> Str [] | Some x \<Rightarrow> x)) acc d)"
  shows "k = []"
  using assms
proof (induction d arbitrary: acc)
  case Nil
  then show ?case by simp
next
  case (Cons x d)
  obtain key v where x: "x = (key, v)" by (cases x)
  let ?acc = "dict_set acc (normalize_header key) (case v of None \<Rightarrow> Str [] | Some x \<Rightarrow> x)"
  have "\<And>k l. (k, Lst l) \<in> set ?acc \<Longrightarrow> k = []"
  proof -
    fix k' l'
    assume "(k', Lst l') \<in> set ?acc"
    then have "(k', Lst l') = (normalize_header key, (case v of None \<Rightarrow> Str [] | Some x \<Rightarrow> x)) \<or> (k', Lst l') \<in> set acc"
      using set_dict_set [of acc "normalize_header key" "case v of None \<Rightarrow> Str [] | Some x \<Rightarrow> x"] by auto
    then show "k' = []"
    proof
      assume eq: "(k', Lst l') = (normalize_header key, (case v of None \<Rightarrow> Str [] | Some x \<Rightarrow> x))"
      then have "v = Some (Lst l')" by (cases v) auto
      then have "key = None" using Cons.prems(1) [of key l'] by (simp add: x)
      with eq show ?thesis by (simp add: normalize_header_def)
    next
      assume "(k', Lst l') \<in> set acc"
      then show ?thesis by (rule Cons.prems(2))
    qed
  qed
  moreover have "\<And>k l. (k, Some (Lst l)) \<in> set d \<Longrightarrow> k = None"
    using Cons.prems(1) by (meson list.set_intros(2))
  ultimately show ?case
    using Cons.IH [of ?acc] Cons.prems(3) by (simp add: x)
qed

lemma fix_row_Lst:
  "(k, Lst l) \<in> set (fix_row (dict_reader_row fieldnames row)) \<Longrightarrow> k = []"
  unfolding fix_row_def
  by (rule foldl_fix_Lst [where acc = "[]" and d = "dict_reader_row fieldnames row"])
     (auto dest: dict_reader_row_Lst)

lemma source_rows_key:
  assumes "r \<in> set (source_rows file)"
  shows "\<exists>k. row_key r = Inr k"
proof -
  from assms obtain fieldnames row where r: "r = fix_row (dict_reader_row fieldnames row)"
    by (auto simp: source_rows_def read_csv_rows_def split: list.splits if_splits)
  have "map_of r KEY \<noteq> Some (Lst l)" for l
  proof
    assume "map_of r KEY = Some (Lst l)"
    then have "(KEY, Lst l) \<in> set r" by (rule map_of_SomeD)
    then have "KEY = []" unfolding r by (rule fix_row_Lst)
    then show False by (simp add: KEY_def ascii_def)
  qed
  then show ?thesis
    by (auto simp: row_key_def split: option.splits cell.splits)
qed

section \<open>The assembler computes the specified layout\<close>

lemma language_loop_eq:
  "(\<And>r. r \<in> set rows \<Longrightarrow> \<exists>k. row_key r = Inr k) \<Longrightarrow>
   language_loop cols rows (out, n) =
     Inr (out @ map (\<lambda>r. to_output_row r cols) (filter is_language_row rows),
          n + length (filter is_language_row rows))"
proof (induction rows arbitrary: out n)
  case Nil
  show ?case by simp
next
  case (Cons r rows)
  from Cons.prems [of r] obtain k where k: "row_key r = Inr k" by auto
  have rest: "\<And>r. r \<in> set rows \<Longrightarrow> \<exists>k. row_key r = Inr k"
    using Cons.prems by simp
  show ?case
    using Cons.IH [OF rest] by (simp add: k is_language_row_def)
qed

lemma source_rows_loop_eq:
  "(\<And>r. r \<in> set rows \<Longrightarrow> \<exists>k. row_key r = Inr k) \<Longrightarrow>
   source_rows_loop name cols rows out =
     Inr (out @ map (\<lambda>r. to_output_row r cols)
                  (filter (\<lambda>r. \<not> (name = additions_csv \<and> is_language_row r)) rows))"
proof (induction rows arbitrary: out)
  case Nil
  show ?case by simp
next
  case (Cons r rows)
  from Cons.prems [of r] obtain k where k: "row_key r = Inr k" by auto
  have rest: "\<And>r. r \<in> set rows \<Longrightarrow> \<exists>k. row_key r = Inr k"
    using Cons.prems by simp
  show ?case
    using Cons.IH [OF rest] by (cases "name = additions_csv") (simp_all add: k is_language_row_def)
qed

lemma marker_row_nonempty:
  "cols \<noteq> [] \<Longrightarrow> marker_row cols name = Inr (section_marker cols name)"
  by (cases cols) (simp_all add: marker_row_def blank_row_def section_marker_def empty_cells_def)

lemma marker_row_empty: "marker_row [] name = Inl IndexError"
  by (simp add: marker_row_def blank_row_def)

lemma section_step:
  "(case dir name of
      None \<Rightarrow> Inr (out, w @ [missing_warning name])
    | Some file \<Rightarrow>
        (case source_rows_loop name cols (snd (read_csv_rows file)) out of
           Inl e \<Rightarrow> Inl e
         | Inr rows_out' \<Rightarrow> Inr (rows_out', w)))
   = Inr (out @ section_data dir cols name,
          w @ map missing_warning (filter (\<lambda>name. dir name = None) [name]))"
proof (cases "dir name")
  case None
  then show ?thesis by (simp add: section_data_def)
next
  case (Some f)
  have "source_rows_loop name cols (source_rows f) out =
     Inr (out @ map (\<lambda>r. to_output_row r cols)
                  (filter (\<lambda>r. \<not> (name = additions_csv \<and> is_language_row r)) (source_rows f)))"
    by (rule source_rows_loop_eq) (rule source_rows_key)
  then show ?thesis using Some by (simp add: section_data_def source_rows_def)
qed

lemma sections_loop_eq:
  "cols \<noteq> [] \<Longrightarrow> n = index + length names \<Longrightarrow>
   sections_loop dir cols n index names (out, w) =
     Inr (out @ section_blocks dir cols names,
          w @ map missing_warning (filter (\<lambda>name. dir name = None) names))"
proof (induction names arbitrary: index out w)
  case Nil
  show ?case by simp
next
  case (Cons name names)
  note step = section_step [where dir = dir and name = name and cols = cols]
  show ?case
  proof (cases names)
    case Nil
    with Cons.prems show ?thesis
      by (simp add: marker_row_nonempty step)
  next
    case (Cons name' names')
    have n: "n = Suc index + length names" using Cons.prems by simp
    have lt: "int index < int n - 1" using Cons.prems Cons by simp
    show ?thesis
      using Cons.IH [OF Cons.prems(1) n] lt Cons
      by (simp add: marker_row_nonempty [OF Cons.prems(1)] step blank_row_def empty_cells_def)
  qed
qed

lemma sections_loop_empty_columns:
  "names \<noteq> [] \<Longrightarrow> sections_loop dir [] n index names st = Inl IndexError"
  by (cases names; cases st) (simp_all add: marker_row_empty)

lemma language_step:
  "(case dir additions_csv of
      None \<Rightarrow> Inr ([], 0)
    | Some file \<Rightarrow> language_loop cols (snd (read_csv_rows file)) ([], 0))
   = Inr (language_rows dir cols,
          case dir additions_csv of
            None \<Rightarrow> 0
          | Some file \<Rightarrow> length (filter is_language_row (source_rows file)))"
proof (cases "dir additions_csv")
  case None
  then show ?thesis by (simp add: language_rows_def)
next
  case (Some f)
  have "language_loop cols (source_rows f) ([], 0) =
     Inr ([] @ map (\<lambda>r. to_output_row r cols) (filter is_language_row (source_rows f)),
          0 + length (filter is_language_row (source_rows f)))"
    by (rule language_loop_eq) (rule source_rows_key)
  then show ?thesis using Some by (simp add: language_rows_def source_rows_def)
qed

lemma build_combined_rows_returns:
  assumes "cols \<noteq> [] \<or> order = []"
  shows "build_combined_rows dir cols order =
           Inr (combined_layout dir cols order, expected_warnings dir order)"
proof (cases "order = []")
  case True
  then show ?thesis
    by (simp add: build_combined_rows_def language_step combined_layout_def
        expected_warnings_def blank_row_def empty_cells_def split: option.splits)
next
  case False
  with assms have cols: "cols \<noteq> []" by simp
  show ?thesis
    by (simp add: build_combined_rows_def language_step combined_layout_def
        sections_loop_eq [OF cols] expected_warnings_def blank_row_def empty_cells_def
        split: option.splits)
qed

lemma build_combined_rows_raises:
  assumes "cols = []" "order \<noteq> []"
  shows "build_combined_rows dir cols order = Inl IndexError"
  using assms
  by (simp add: build_combined_rows_def language_step sections_loop_empty_columns)

section \<open>Evaluating the concrete files\<close>

lemma py_strip_Nil: "py_strip [] = []"
  by (simp add: py_strip_def py_lstrip_def py_rstrip_def)

lemma py_strip_id:
  assumes "s \<noteq> []" and "\<not> py_isspace (hd s)" and "\<not> py_isspace (last s)"
  shows "py_strip s = s"
proof -
  from assms have left: "py_lstrip s = s"
    by (cases s) (simp_all add: py_lstrip_def)
  from assms(1) obtain ys y where "s = ys @ [y]"
    by (cases s rule: rev_cases) auto
  with assms(3) have "py_rstrip s = s"
    by (simp add: py_rstrip_def)
  with left show ?thesis by (simp add: py_strip_def)
qed

lemma py_strip_leading: "py_isspace c \<Longrightarrow> py_strip (c # s) = py_strip s"
  by (simp add: py_strip_def py_lstrip_def)

lemma example_source_rows_additions:
  "source_rows example_additions =
     [[(ascii ''KEY'', Str (ascii ''CURRENT_LANGUAGE_NAME'')), (ascii ''EN'', Str (ascii ''English'')),
       (ascii ''ZH'', Str [20013, 25991])],
      [(ascii ''KEY'', Str (ascii ''foo'')), (ascii ''EN'', Str (ascii ''Foo'')),
       (ascii ''ZH'', Str (ascii ''fu''))]]"
  by (simp add: source_rows_def read_csv_rows_def example_additions_def dict_reader_row_def
      fix_row_def normalize_header_def BOM_def ascii_def)

lemma example_source_rows_items:
  "source_rows example_items =
     [[(ascii ''KEY'', Str (ascii ''bar'')), (ascii ''EN'', Str (ascii ''Bar'')),
       (ascii ''ZH'', Str (ascii ''ba''))]]"
  by (simp add: source_rows_def read_csv_rows_def example_items_def dict_reader_row_def
      fix_row_def normalize_header_def BOM_def ascii_def)

lemma example_language_row:
  "is_language_row
     [(ascii ''KEY'', Str (ascii ''CURRENT_LANGUAGE_NAME'')), (ascii ''EN'', Str (ascii ''English'')),
      (ascii ''ZH'', Str [20013, 25991])]"
  by (simp add: is_language_row_def row_key_def KEY_def LANGUAGE_KEYS_def py_strip_id
      py_isspace_def ascii_def)

lemma example_normal_row:
  "\<not> is_language_row
     [(ascii ''KEY'', Str (ascii ''foo'')), (ascii ''EN'', Str (ascii ''Foo'')),
      (ascii ''ZH'', Str (ascii ''fu''))]"
  by (simp add: is_language_row_def row_key_def KEY_def LANGUAGE_KEYS_def py_strip_id
      py_isspace_def ascii_def)

lemma example_dir_additions: "example_dir additions_csv = Some example_additions"
  by (simp add: example_dir_def additions_csv_def)

lemma example_dir_items: "example_dir (ascii ''items.csv'') = Some example_items"
  by (simp add: example_dir_def ascii_def)

lemma example_dir_skills: "example_dir (ascii ''skills.csv'') = None"
  by (simp add: example_dir_def ascii_def)

lemma example_language_rows:
  "language_rows example_dir example_columns =
     [[Str (ascii ''CURRENT_LANGUAGE_NAME''), Str (ascii ''English''), Str [20013, 25991]]]"
  by (simp add: language_rows_def example_dir_additions example_source_rows_additions
      example_language_row example_normal_row)
     (simp add: to_output_row_def example_columns_def ascii_def)

lemma example_section_data_additions:
  "section_data example_dir example_columns (ascii ''additions.csv'') =
     [[Str (ascii ''foo''), Str (ascii ''Foo''), Str (ascii ''fu'')]]"
  using example_dir_additions
  by (simp add: section_data_def additions_csv_def example_source_rows_additions
      example_language_row example_normal_row)
     (simp add: to_output_row_def example_columns_def ascii_def)

lemma example_section_data_items:
  "section_data example_dir example_columns (ascii ''items.csv'') =
     [[Str (ascii ''bar''), Str (ascii ''Bar''), Str (ascii ''ba'')]]"
proof -
  have "ascii ''items.csv'' \<noteq> additions_csv"
    by (simp add: additions_csv_def ascii_def)
  then show ?thesis
    by (simp add: section_data_def example_dir_items example_source_rows_items)
       (simp add: to_output_row_def example_columns_def ascii_def)
qed

lemma example_section_data_skills:
  "section_data example_dir example_columns (ascii ''skills.csv'') = []"
  by (simp add: section_data_def example_dir_skills)

lemma example_layout:
  "combined_layout example_dir example_columns example_order = map (map Str) example_body"
  by (simp add: combined_layout_def example_order_def example_language_rows
      example_section_data_items example_section_data_additions)
     (simp add: example_body_def example_columns_def section_marker_def empty_cells_def ascii_def)

lemma example_marker_names: "marker_names example_body = example_order"
  by (simp add: marker_names_def example_body_def is_section_marker_def marker_file_name_def
      py_strip_Nil py_strip_id py_strip_leading py_isspace_def startswith_def endswith_def example_order_def
      ascii_def)

lemma example_parse:
  "parse_reference_combined example_reference = Inr (example_columns, example_order)"
  by (simp add: example_reference_def parse_reference_combined_Cons example_marker_names)
     (simp add: example_order_def example_columns_def normalize_header_def BOM_def ascii_def)

section \<open>Further facts about the layout\<close>

lemma length_section_blocks_rows:
  "cols \<noteq> [] \<Longrightarrow> r \<in> set (section_blocks dir cols names) \<Longrightarrow> length r = length cols"
  by (induction dir cols names rule: section_blocks.induct)
     (auto simp: section_marker_def empty_cells_def section_data_def to_output_row_def
        split: option.splits)

lemma length_layout_rows:
  assumes "cols \<noteq> [] \<or> order = []" and "r \<in> set (combined_layout dir cols order)"
  shows "length r = length cols"
proof -
  from assms(2) consider "r \<in> set (language_rows dir cols)" | "r = empty_cells (length cols)"
    | "r \<in> set (section_blocks dir cols order)"
    by (auto simp: combined_layout_def)
  then show ?thesis
  proof cases
    case 1
    then show ?thesis
      by (auto simp: language_rows_def to_output_row_def split: option.splits)
  next
    case 2
    then show ?thesis by (simp add: empty_cells_def)
  next
    case 3
    with assms(1) show ?thesis
      by (cases "order = []") (auto simp: length_section_blocks_rows)
  qed
qed

lemma build_combined_rows_Inr_D:
  assumes "build_combined_rows dir cols order = Inr (rows, warns)"
  shows "(cols \<noteq> [] \<or> order = []) \<and> rows = combined_layout dir cols order
         \<and> warns = expected_warnings dir order"
proof (cases "cols \<noteq> [] \<or> order = []")
  case True
  with assms build_combined_rows_returns [OF True, of dir] show ?thesis by simp
next
  case False
  then have "build_combined_rows dir cols order = Inl IndexError"
    by (simp add: build_combined_rows_raises)
  with assms show ?thesis by simp
qed



lemma section_blocks_Cons:
  "rest \<noteq> [] \<Longrightarrow>
   section_blocks dir cols (name # rest) =
     section_marker cols name # section_data dir cols name
       @ [empty_cells (length cols)] @ section_blocks dir cols rest"
  by (cases rest) simp_all

lemma section_blocks_split:
  "section_blocks dir cols (pre @ name # post) =
     separated_blocks dir cols pre
       @ [section_marker cols name] @ section_data dir cols name
       @ (if post = [] then [] else empty_cells (length cols) # section_blocks dir cols post)"
proof (induction pre)
  case Nil
  show ?case by (cases post) (simp_all add: separated_blocks_def)
next
  case (Cons p pre)
  have "section_blocks dir cols ((p # pre) @ name # post) =
      section_marker cols p # section_data dir cols p
        @ [empty_cells (length cols)] @ section_blocks dir cols (pre @ name # post)"
    using section_blocks_Cons [of "pre @ name # post" dir cols p] by simp
  with Cons.IH show ?case by (simp add: separated_blocks_def)
qed


section \<open>Facts about the whole run\<close>

lemma section_data_cong:
  "dir name = dir' name \<Longrightarrow> section_data dir cols name = section_data dir' cols name"
  by (simp add: section_data_def)

lemma section_blocks_cong:
  "(\<And>name. name \<in> set names \<Longrightarrow> dir name = dir' name) \<Longrightarrow>
   section_blocks dir cols names = section_blocks dir' cols names"
proof (induction dir cols names rule: section_blocks.induct)
  case (1 dir cols)
  show ?case by simp
next
  case (2 dir cols name)
  then show ?case by (simp add: section_data_cong [of dir name dir'])
next
  case (3 dir cols name v va)
  then show ?case by (simp add: section_data_cong [of dir name dir'])
qed

lemma build_combined_rows_cong:
  assumes "dir additions_csv = dir' additions_csv"
    and "\<And>name. name \<in> set order \<Longrightarrow> dir name = dir' name"
  shows "build_combined_rows dir cols order = build_combined_rows dir' cols order"
proof (cases "cols \<noteq> [] \<or> order = []")
  case True
  have "language_rows dir cols = language_rows dir' cols"
    by (simp add: language_rows_def assms(1))
  moreover have "section_blocks dir cols order = section_blocks dir' cols order"
    using assms(2) by (rule section_blocks_cong)
  moreover have "filter (\<lambda>name. dir name = None) order = filter (\<lambda>name. dir' name = None) order"
    using assms(2) by (intro filter_cong) simp_all
  ultimately have "combined_layout dir cols order = combined_layout dir' cols order"
    and "expected_warnings dir order = expected_warnings dir' order"
    by (simp_all add: combined_layout_def expected_warnings_def assms(1))
  then show ?thesis
    by (simp add: build_combined_rows_returns [OF True])
next
  case False
  then show ?thesis by (simp add: build_combined_rows_raises)
qed

lemma main_run:
  assumes "text_dir_isdir w" and "reference w = Some ref"
  shows "main isprintable w =
     (case parse_reference_combined ref of
        Inl e \<Rightarrow> Inl e
      | Inr (cols, order) \<Rightarrow>
          (case build_combined_rows (text_dir w) cols order of
             Inl e \<Rightarrow> Inl (Uncaught e)
           | Inr (rows, warns) \<Rightarrow>
               Inr \<lparr>written = cols # map (map (written_cell isprintable)) rows,
                    sections = length order,
                    rows_written = length rows, warnings = warns\<rparr>))"
  using assms by (simp add: main_def write_combined_def split: sum.splits prod.splits)

lemma parse_reference_combined_Inr_D:
  assumes "parse_reference_combined ref = Inr (cols, order)"
  shows "order \<noteq> [] \<and> (\<exists>raw_header rest. ref = raw_header # rest \<and>
           cols = map (\<lambda>col. normalize_header (Some col)) raw_header \<and>
           order = marker_names rest)"
proof (cases ref)
  case Nil
  with assms show ?thesis by (simp add: parse_reference_combined_def)
next
  case (Cons raw_header rest)
  with assms show ?thesis
    by (simp add: parse_reference_combined_Cons split: if_splits)
qed

lemma inj_map_Str: "map Str xs = map Str ys \<longleftrightarrow> xs = ys"
  by (simp add: inj_on_def)

section \<open>Evaluating the file with a noted marker row\<close>

lemma noted_parse:
  "parse_reference_combined noted_reference =
     Inr ([ascii ''KEY'', ascii ''EN''], [ascii ''a.csv''])"
proof -
  have "marker_names [[[], []], [ascii ''// a.csv'', ascii ''x''], [ascii ''k'', ascii ''v'']]
      = [ascii ''a.csv'']"
    by (simp add: marker_names_def is_section_marker_def marker_file_name_def
        py_strip_Nil py_strip_id py_strip_leading py_isspace_def startswith_def endswith_def
        ascii_def)
  then show ?thesis
    by (simp add: noted_reference_def parse_reference_combined_Cons)
       (simp add: normalize_header_def BOM_def ascii_def)
qed


section \<open>Facts about origins\<close>
















section \<open>Evaluating the directories with file identities\<close>






section \<open>Reading back a file of well-formed rows\<close>








section \<open>Parsing a canonical combined file\<close>











section \<open>The split of a canonical combined file\<close>















text \<open>
  A list cell is written as the text of the list: for the surplus cells \<open>x\<close> and \<open>y\<close>,
  a bracket, the two letters each in single quotes and separated by a comma and a
  space, and a bracket.
\<close>

lemma written_list_cell:
  "written_cell isprintable (Lst [ascii ''x'', ascii ''y'']) =
     [91, 39, 120, 39, 44, 32, 39, 121, 39, 93]"
  by (simp add: written_cell_def str_of_list_def py_repr_def repr_char_def ascii_def)


section \<open>Evaluating the canonical example and the split of the noted file\<close>









text \<open>
  No source directory at all makes the run reproduce \<open>noted_reference\<close>: whatever the
  files hold, the marker row of the written file has an empty second cell.
\<close>

lemma noted_reference_not_reproduced:
  assumes "text_dir_isdir w" and "reference w = Some noted_reference"
    and "main isprintable w = Inr rep"
  shows "written rep \<noteq> noted_reference"
proof -
  let ?cols = "[ascii ''KEY'', ascii ''EN'']"
  let ?order = "[ascii ''a.csv'']"
  have "build_combined_rows (text_dir w) ?cols ?order =
      Inr (combined_layout (text_dir w) ?cols ?order, expected_warnings (text_dir w) ?order)"
    by (rule build_combined_rows_returns) simp
  with assms have "written rep =
      ?cols # map (map (written_cell isprintable)) (combined_layout (text_dir w) ?cols ?order)"
    by (auto simp: main_run noted_parse)
  then have "map (written_cell isprintable) (section_marker ?cols (ascii ''a.csv''))
      \<in> set (written rep)"
    by (simp add: combined_layout_def)
  moreover have "map (written_cell isprintable) (section_marker ?cols (ascii ''a.csv''))
      \<notin> set noted_reference"
    by (simp add: section_marker_def empty_cells_def written_cell_def noted_reference_def ascii_def)
  ultimately show ?thesis by auto
qed

section \<open>The claims\<close>

text \<open>
  C3. For a reference file with at least one section marker after its header row,
  \<open>parse_reference_combined\<close> returns a column list as long as the header row and
  the file names of the marker rows, in the order met, duplicates kept.
\<close>

theorem parse_reference_combined_sections:
  assumes "filter is_section_marker rest \<noteq> []"
  shows "\<exists>header order.
           parse_reference_combined (raw_header # rest) = Inr (header, order) \<and>
           length header = length raw_header \<and>
           order = map marker_file_name (filter is_section_marker rest)"
  using assms by (simp add: parse_reference_combined_Cons marker_names_def)

theorem parse_reference_combined_sections_witness:
  "filter is_section_marker example_body \<noteq> [] \<and>
   (\<exists>header order.
      parse_reference_combined (example_columns # example_body) = Inr (header, order) \<and>
      length header = length example_columns \<and> order = example_order)"
proof -
  have markers: "map marker_file_name (filter is_section_marker example_body) = example_order"
    using example_marker_names by (simp add: marker_names_def)
  then have ne: "filter is_section_marker example_body \<noteq> []"
    by (auto simp: example_order_def)
  from parse_reference_combined_sections [OF ne, of example_columns] markers
  show ?thesis using ne by simp
qed

text \<open>
  C6. \<open>parse_reference_combined\<close> aborts exactly when the reference file has no rows
  (then with the "reference is empty" exit) or no row after the header is a section
  marker (then with the "no section order" exit); with a header row and at least one
  marker row it returns.
\<close>

theorem parse_reference_combined_aborts_iff:
  "((\<exists>e. parse_reference_combined ref = Inl e) \<longleftrightarrow>
      ref = [] \<or> filter is_section_marker (tl ref) = []) \<and>
   ((\<exists>result. parse_reference_combined ref = Inr result) \<longleftrightarrow>
      ref \<noteq> [] \<and> filter is_section_marker (tl ref) \<noteq> []) \<and>
   (parse_reference_combined ref = Inl ReferenceEmpty \<longleftrightarrow> ref = []) \<and>
   (parse_reference_combined ref = Inl NoSectionOrder \<longleftrightarrow>
      ref \<noteq> [] \<and> filter is_section_marker (tl ref) = [])"
proof (cases ref)
  case Nil
  then show ?thesis by (simp add: parse_reference_combined_def)
next
  case (Cons raw_header rest)
  then show ?thesis by (simp add: parse_reference_combined_Cons marker_names_def)
qed

theorem parse_reference_combined_aborts_iff_witness:
  "parse_reference_combined [] = Inl ReferenceEmpty \<and>
   parse_reference_combined [example_columns] = Inl NoSectionOrder \<and>
   (\<exists>result. parse_reference_combined example_reference = Inr result)"
proof -
  have "map marker_file_name (filter is_section_marker example_body) = example_order"
    using example_marker_names by (simp add: marker_names_def)
  then have "filter is_section_marker example_body \<noteq> []"
    by (auto simp: example_order_def)
  then show ?thesis
    using parse_reference_combined_aborts_iff [of "[]"]
      parse_reference_combined_aborts_iff [of "[example_columns]"]
      parse_reference_combined_aborts_iff [of example_reference]
    by (simp add: example_reference_def)
qed

text \<open>
  C4. The projected row has one cell per output column: the source row's value under
  that column name when the row has one, the empty string otherwise. What the source
  row holds under other names has no influence: rows that agree on the output columns
  project to the same row.
\<close>

theorem to_output_row_projection:
  "length (to_output_row source_row output_columns) = length output_columns \<and>
   (\<forall>i < length output_columns.
      to_output_row source_row output_columns ! i =
        (case map_of source_row (output_columns ! i) of None \<Rightarrow> Str [] | Some v \<Rightarrow> v)) \<and>
   (\<forall>other_row.
      (\<forall>col \<in> set output_columns. map_of other_row col = map_of source_row col) \<longrightarrow>
      to_output_row other_row output_columns = to_output_row source_row output_columns)"
proof (intro conjI allI impI)
  show "length (to_output_row source_row output_columns) = length output_columns"
    by (simp add: to_output_row_def)
next
  fix i assume "i < length output_columns"
  then show "to_output_row source_row output_columns ! i =
        (case map_of source_row (output_columns ! i) of None \<Rightarrow> Str [] | Some v \<Rightarrow> v)"
    by (simp add: to_output_row_def)
next
  fix other_row
  assume "\<forall>col \<in> set output_columns. map_of other_row col = map_of source_row col"
  then show "to_output_row other_row output_columns = to_output_row source_row output_columns"
    unfolding to_output_row_def by (intro map_cong) simp_all
qed

theorem to_output_row_projection_witness:
  "to_output_row [(ascii ''KEY'', Str (ascii ''k'')), (ascii ''NOTE'', Str (ascii ''n''))]
     [ascii ''KEY'', ascii ''ZH''] ! 0 = Str (ascii ''k'') \<and>
   to_output_row [(ascii ''KEY'', Str (ascii ''k'')), (ascii ''NOTE'', Str (ascii ''n''))]
     [ascii ''KEY'', ascii ''ZH''] ! 1 = Str [] \<and>
   map_of [(ascii ''KEY'', Str (ascii ''k''))] (ascii ''KEY'') =
   map_of [(ascii ''KEY'', Str (ascii ''k'')), (ascii ''NOTE'', Str (ascii ''n''))] (ascii ''KEY'') \<and>
   map_of [(ascii ''KEY'', Str (ascii ''k''))] (ascii ''ZH'') =
   map_of [(ascii ''KEY'', Str (ascii ''k'')), (ascii ''NOTE'', Str (ascii ''n''))] (ascii ''ZH'') \<and>
   to_output_row [(ascii ''KEY'', Str (ascii ''k''))] [ascii ''KEY'', ascii ''ZH''] =
   to_output_row [(ascii ''KEY'', Str (ascii ''k'')), (ascii ''NOTE'', Str (ascii ''n''))]
     [ascii ''KEY'', ascii ''ZH'']"
proof -
  let ?row = "[(ascii ''KEY'', Str (ascii ''k'')), (ascii ''NOTE'', Str (ascii ''n''))]"
  let ?small = "[(ascii ''KEY'', Str (ascii ''k''))]"
  let ?cols = "[ascii ''KEY'', ascii ''ZH'']"
  have names: "ascii ''KEY'' \<noteq> ascii ''ZH''" "ascii ''NOTE'' \<noteq> ascii ''ZH''"
    "ascii ''NOTE'' \<noteq> ascii ''KEY''"
    by (simp_all add: ascii_def)
  note p = to_output_row_projection [of ?row ?cols]
  have "(0::nat) < length ?cols" by simp
  with p have "to_output_row ?row ?cols ! 0 =
      (case map_of ?row (?cols ! 0) of None \<Rightarrow> Str [] | Some v \<Rightarrow> v)"
    by (elim conjE allE [where x = 0]) (rule mp)
  then have c0: "to_output_row ?row ?cols ! 0 = Str (ascii ''k'')"
    by simp
  have "(1::nat) < length ?cols" by simp
  with p have "to_output_row ?row ?cols ! 1 =
      (case map_of ?row (?cols ! 1) of None \<Rightarrow> Str [] | Some v \<Rightarrow> v)"
    by (elim conjE allE [where x = 1]) (rule mp)
  then have c1: "to_output_row ?row ?cols ! 1 = Str []"
    using names by simp
  have agree: "\<forall>col \<in> set ?cols. map_of ?small col = map_of ?row col"
    using names by simp
  with p have "to_output_row ?small ?cols = to_output_row ?row ?cols"
    by (elim conjE allE [where x = ?small]) (rule mp)
  moreover from agree have "map_of ?small (ascii ''KEY'') = map_of ?row (ascii ''KEY'')"
    and "map_of ?small (ascii ''ZH'') = map_of ?row (ascii ''ZH'')"
    by simp_all
  ultimately show ?thesis using c0 c1 by (intro conjI)
qed

text \<open>
  C1. For a non-empty output column list and a non-empty section order the assembler
  returns exactly: the projected language rows of additions.csv, one blank row, then
  per section its marker row (\<open>//\<close>, a space and the file name in the first cell, the
  other cells empty) and its projected data rows, with one blank row after every
  section but the last.
\<close>

theorem build_combined_rows_layout:
  assumes "output_columns \<noteq> []" and "section_order \<noteq> []"
  shows "\<exists>warns.
           build_combined_rows dir output_columns section_order =
             Inr (language_rows dir output_columns
                    @ [empty_cells (length output_columns)]
                    @ section_blocks dir output_columns section_order,
                  warns)"
  using assms(1) by (simp add: build_combined_rows_returns combined_layout_def)

theorem build_combined_rows_layout_witness:
  "example_columns \<noteq> [] \<and> example_order \<noteq> [] \<and>
   (\<exists>warns. build_combined_rows example_dir example_columns example_order =
              Inr (map (map Str) example_body, warns))"
proof -
  have cols: "example_columns \<noteq> []" by (simp add: example_columns_def)
  have order: "example_order \<noteq> []" by (simp add: example_order_def)
  from build_combined_rows_layout [OF cols order, of example_dir]
  have "\<exists>warns. build_combined_rows example_dir example_columns example_order =
          Inr (combined_layout example_dir example_columns example_order, warns)"
    by (simp add: combined_layout_def)
  with cols order show ?thesis by (simp add: example_layout)
qed

text \<open>
  C9. Every row of the list the assembler returns has as many cells as there are
  output columns.
\<close>

theorem build_combined_rows_row_lengths:
  assumes "build_combined_rows dir output_columns section_order = Inr (rows, warns)"
    and "row \<in> set rows"
  shows "length row = length output_columns"
proof -
  from build_combined_rows_Inr_D [OF assms(1)]
  have ok: "output_columns \<noteq> [] \<or> section_order = []"
    and rows: "rows = combined_layout dir output_columns section_order"
    by simp_all
  from assms(2) show ?thesis
    unfolding rows by (rule length_layout_rows [OF ok])
qed

theorem build_combined_rows_row_lengths_witness:
  "build_combined_rows example_dir example_columns example_order =
     Inr (map (map Str) example_body, []) \<and>
   map Str (ascii ''// items.csv'' # [[], []]) \<in> set (map (map Str) example_body) \<and>
   length (map Str (ascii ''// items.csv'' # [[], []])) = length example_columns"
proof -
  have cols: "example_columns \<noteq> [] \<or> example_order = []" by (simp add: example_columns_def)
  have "expected_warnings example_dir example_order = []"
    using example_dir_additions
    by (simp add: expected_warnings_def additions_csv_def example_source_rows_additions
        example_language_row example_order_def example_dir_items)
  with build_combined_rows_returns [OF cols, of example_dir]
  have built: "build_combined_rows example_dir example_columns example_order =
     Inr (map (map Str) example_body, [])"
    by (simp add: example_layout)
  have mem: "map Str (ascii ''// items.csv'' # [[], []]) \<in> set (map (map Str) example_body)"
    by (simp add: example_body_def)
  from build_combined_rows_row_lengths [OF built mem] built mem
  show ?thesis by (intro conjI)
qed

text \<open>
  C10. For a non-empty output column list the assignment to cell 0 of a marker row is
  in bounds, and the assembler returns for every directory and section order.
\<close>

theorem build_combined_rows_total:
  assumes "output_columns \<noteq> []"
  shows "(\<exists>marker. marker_row output_columns file_name = Inr marker \<and>
                    length marker = length output_columns \<and>
                    marker ! 0 = Str (ascii ''// '' @ file_name)) \<and>
         (\<exists>result. build_combined_rows dir output_columns section_order = Inr result)"
  using assms
  by (cases output_columns)
     (simp_all add: build_combined_rows_returns marker_row_def blank_row_def)

theorem build_combined_rows_total_witness:
  "example_columns \<noteq> [] \<and>
   (\<exists>marker. marker_row example_columns (ascii ''items.csv'') = Inr marker \<and>
              length marker = length example_columns \<and>
              marker ! 0 = Str (ascii ''// '' @ ascii ''items.csv'')) \<and>
   (\<exists>result. build_combined_rows example_dir example_columns example_order = Inr result)"
proof -
  have cols: "example_columns \<noteq> []" by (simp add: example_columns_def)
  from build_combined_rows_total [OF cols, of "ascii ''items.csv''" example_dir example_order] cols
  show ?thesis by (intro conjI) simp_all
qed

text \<open>
  C7, as amended. For a non-empty output column list and a section file that is not in
  the source directory, the assembler returns: the rows hold the sections before it,
  then its marker row and no data row for it, then (after a separator) the remaining
  sections; the warnings hold the missing-file warning, which ends in the file name.
\<close>

theorem missing_file_keeps_section:
  assumes "cols \<noteq> []" and "dir name = None"
  shows "\<exists>rows warns.
           build_combined_rows dir cols (pre @ name # post) = Inr (rows, warns) \<and>
           rows = language_rows dir cols @ [empty_cells (length cols)]
                    @ separated_blocks dir cols pre
                    @ [section_marker cols name]
                    @ (if post = [] then []
                       else empty_cells (length cols) # section_blocks dir cols post) \<and>
           section_data dir cols name = [] \<and>
           missing_warning name \<in> set warns \<and>
           (\<exists>prefix. missing_warning name = prefix @ name)"
proof -
  have data: "section_data dir cols name = []"
    by (simp add: section_data_def assms(2))
  have "build_combined_rows dir cols (pre @ name # post) =
      Inr (combined_layout dir cols (pre @ name # post),
           expected_warnings dir (pre @ name # post))"
    using assms(1) by (simp add: build_combined_rows_returns)
  moreover have "combined_layout dir cols (pre @ name # post) =
      language_rows dir cols @ [empty_cells (length cols)]
        @ separated_blocks dir cols pre
        @ [section_marker cols name]
        @ (if post = [] then [] else empty_cells (length cols) # section_blocks dir cols post)"
    by (simp add: combined_layout_def section_blocks_split data)
  moreover have "missing_warning name \<in> set (expected_warnings dir (pre @ name # post))"
    by (simp add: expected_warnings_def assms(2))
  moreover have "\<exists>prefix. missing_warning name = prefix @ name"
    by (simp add: missing_warning_def)
  ultimately show ?thesis using data by blast
qed

theorem missing_file_keeps_section_witness:
  "example_columns \<noteq> [] \<and> example_dir (ascii ''skills.csv'') = None \<and>
   (\<exists>warns. build_combined_rows example_dir example_columns example_order_missing =
              Inr (map (map Str) example_body_missing, warns) \<and>
            missing_warning (ascii ''skills.csv'') \<in> set warns)"
proof -
  have cols: "example_columns \<noteq> []" by (simp add: example_columns_def)
  have order: "example_order_missing =
      [ascii ''items.csv''] @ ascii ''skills.csv'' # [ascii ''additions.csv'']"
    by (simp add: example_order_missing_def)
  have rows: "language_rows example_dir example_columns
        @ [empty_cells (length example_columns)]
        @ separated_blocks example_dir example_columns [ascii ''items.csv'']
        @ [section_marker example_columns (ascii ''skills.csv'')]
        @ (if [ascii ''additions.csv''] = [] then []
           else empty_cells (length example_columns)
                  # section_blocks example_dir example_columns [ascii ''additions.csv''])
      = map (map Str) example_body_missing"
    by (simp add: example_language_rows separated_blocks_def example_section_data_items
        example_section_data_additions)
       (simp add: example_body_missing_def example_columns_def section_marker_def
        empty_cells_def ascii_def)
  from missing_file_keeps_section [where cols = example_columns and dir = example_dir
      and name = "ascii ''skills.csv''" and pre = "[ascii ''items.csv'']"
      and post = "[ascii ''additions.csv'']", OF cols example_dir_skills]
  have "\<exists>warns. build_combined_rows example_dir example_columns example_order_missing =
              Inr (map (map Str) example_body_missing, warns) \<and>
            missing_warning (ascii ''skills.csv'') \<in> set warns"
    unfolding rows order [symmetric] by blast
  with cols example_dir_skills show ?thesis by (intro conjI)
qed

text \<open>
  Without the condition on the column list the statement of C7 fails: a reference file
  whose first line is blank gives an empty column list, and the assignment to cell 0 of
  the first marker row then raises \<open>IndexError\<close>, whether the section file exists or
  not.
\<close>

theorem missing_file_empty_columns_counterexample:
  "parse_reference_combined headerless_reference = Inr ([], [ascii ''skills.csv'']) \<and>
   empty_dir (ascii ''skills.csv'') = None \<and>
   build_combined_rows empty_dir [] [ascii ''skills.csv''] = Inl IndexError"
proof -
  have "marker_names [[ascii ''// skills.csv'']] = [ascii ''skills.csv'']"
    by (simp add: marker_names_def is_section_marker_def marker_file_name_def
        py_strip_id py_strip_leading py_isspace_def startswith_def endswith_def ascii_def)
  then have "parse_reference_combined headerless_reference = Inr ([], [ascii ''skills.csv''])"
    by (simp add: headerless_reference_def parse_reference_combined_Cons)
  moreover have "build_combined_rows empty_dir [] [ascii ''skills.csv''] = Inl IndexError"
    by (simp add: build_combined_rows_raises)
  ultimately show ?thesis by (simp add: empty_dir_def)
qed

text \<open>
  C8. A run is a function of its file inputs. Two runs with the same reference file, in
  text directories that hold the same additions.csv and the same files under the section
  names of the reference, end alike: with the same abort, or with the same written rows,
  counts and warnings. Two runs on identical inputs are the special case.
\<close>

theorem main_deterministic:
  assumes "text_dir_isdir w = text_dir_isdir w'"
    and "reference w = reference w'"
    and "text_dir w additions_csv = text_dir w' additions_csv"
    and "\<And>ref cols order name.
           reference w = Some ref \<Longrightarrow> parse_reference_combined ref = Inr (cols, order) \<Longrightarrow>
           name \<in> set order \<Longrightarrow> text_dir w name = text_dir w' name"
  shows "main isprintable w = main isprintable w'"
proof (cases "text_dir_isdir w")
  case False
  with assms(1) show ?thesis by (simp add: main_def)
next
  case True
  with assms(1) have True': "text_dir_isdir w'" by simp
  show ?thesis
  proof (cases "reference w")
    case None
    with assms(2) True True' show ?thesis by (simp add: main_def)
  next
    case (Some ref)
    with assms(2) have Some': "reference w' = Some ref" by simp
    show ?thesis
    proof (cases "parse_reference_combined ref")
      case (Inl e)
      then show ?thesis
        by (simp add: main_run [OF True Some] main_run [OF True' Some'])
    next
      case (Inr p)
      obtain cols order where p: "p = (cols, order)" by (cases p)
      have "build_combined_rows (text_dir w) cols order =
            build_combined_rows (text_dir w') cols order"
        using assms(3) assms(4) [OF Some Inr [unfolded p]]
        by (rule build_combined_rows_cong)
      then show ?thesis
        by (simp add: main_run [OF True Some] main_run [OF True' Some'] Inr p)
    qed
  qed
qed

theorem main_deterministic_witness:
  "text_dir_isdir example_world_rerun = text_dir_isdir example_world \<and>
   reference example_world_rerun = reference example_world \<and>
   text_dir example_world_rerun (ascii ''combined.csv'')
     \<noteq> text_dir example_world (ascii ''combined.csv'') \<and>
   (\<forall>isprintable. main isprintable example_world_rerun = main isprintable example_world)"
proof -
  have isdir: "text_dir_isdir example_world_rerun = text_dir_isdir example_world"
    and ref: "reference example_world_rerun = reference example_world"
    by (simp_all add: example_world_rerun_def)
  have names: "ascii ''combined.csv'' \<noteq> ascii ''additions.csv''"
    "ascii ''combined.csv'' \<noteq> ascii ''items.csv''"
    by (simp_all add: ascii_def)
  have same: "text_dir example_world_rerun name = text_dir example_world name"
    if "name \<noteq> ascii ''combined.csv''" for name
    using that by (simp add: example_world_rerun_def)
  have additions: "text_dir example_world_rerun additions_csv = text_dir example_world additions_csv"
    using names by (intro same) (simp add: additions_csv_def)
  have sections: "text_dir example_world_rerun name = text_dir example_world name"
    if "reference example_world_rerun = Some ref"
      and "parse_reference_combined ref = Inr (cols, order)" and "name \<in> set order"
    for ref cols order name
  proof -
    from that(1) have "ref = example_reference"
      by (simp add: example_world_rerun_def example_world_def)
    with that(2) have "order = example_order" by (simp add: example_parse)
    with that(3) names have "name \<noteq> ascii ''combined.csv''"
      by (auto simp: example_order_def)
    then show ?thesis by (rule same)
  qed
  have differ: "text_dir example_world_rerun (ascii ''combined.csv'')
     \<noteq> text_dir example_world (ascii ''combined.csv'')"
    using names by (simp add: example_world_rerun_def example_world_def example_dir_def)
  have "main isprintable example_world_rerun = main isprintable example_world"
    for isprintable
    by (rule main_deterministic [OF isdir ref additions sections])
  with isdir ref differ show ?thesis by (intro conjI allI)
qed







end
